theory Spec2Isabelle
  imports Complex_Main "HOL-Library.Word" "HOL-Library.Log_Nat"
begin

section \<open>JavaScript strings and arrays\<close>

text \<open>
  A JavaScript string is a sequence of UTF-16 code units. \<open>js\<close> writes an ASCII literal
  as such a sequence.
\<close>

type_synonym jsstring = "16 word list"

definition js :: "string \<Rightarrow> jsstring" where
  "js s = map of_char s"

text \<open>
  The class \<open>\s\<close> of ECMAScript regular expressions (WhiteSpace and LineTerminator); the
  class \<open>\S\<close> is its complement, and \<open>$.trim\<close> strips the same code units. U+180E,
  a space separator in older versions of Unicode only, is left out.
\<close>

definition is_space :: "16 word \<Rightarrow> bool" where
  "is_space c \<longleftrightarrow>
     c \<in> {0x9, 0xA, 0xB, 0xC, 0xD, 0x20, 0xA0, 0x1680, 0x2028, 0x2029, 0x202F, 0x205F,
          0x3000, 0xFEFF}
     \<or> (0x2000 \<le> c \<and> c \<le> 0x200A)"

text \<open>\<open>$.trim(s)\<close>: \<open>s\<close> without its leading and trailing white space.\<close>

definition trim :: "jsstring \<Rightarrow> jsstring" where
  "trim s = rev (dropWhile is_space (rev (dropWhile is_space s)))"

text \<open>
  \<open>s.match(/[\S]+/g)\<close>: the maximal runs of non-space code units of \<open>s\<close>, left to right,
  or \<open>null\<close> (here \<open>None\<close>) when there is none. \<open>non_space_runs cur s\<close> scans \<open>s\<close> with
  the run \<open>cur\<close> open.
\<close>

fun non_space_runs :: "jsstring \<Rightarrow> jsstring \<Rightarrow> jsstring list" where
  "non_space_runs cur [] = (if cur = [] then [] else [cur])"
| "non_space_runs cur (c # cs) =
     (if is_space c then (if cur = [] then non_space_runs [] cs else cur # non_space_runs [] cs)
      else non_space_runs (cur @ [c]) cs)"

definition match_non_space :: "jsstring \<Rightarrow> jsstring list option" where
  "match_non_space s = (let runs = non_space_runs [] s in if runs = [] then None else Some runs)"

text \<open>\<open>s.split("")\<close>: one string per code unit.\<close>

definition split_chars :: "jsstring \<Rightarrow> jsstring list" where
  "split_chars s = map (\<lambda>c. [c]) s"

text \<open>\<open>words.join(sep)\<close>.\<close>

fun join :: "jsstring \<Rightarrow> jsstring list \<Rightarrow> jsstring" where
  "join sep [] = []"
| "join sep [x] = x"
| "join sep (x # y # ys) = x @ sep @ join sep (y # ys)"

text \<open>
  \<open>xs.slice(begin, end)\<close>: a negative index counts from the end of the array, and both
  indices are clamped to the array.
\<close>

definition slice :: "'a list \<Rightarrow> int \<Rightarrow> int \<Rightarrow> 'a list" where
  "slice xs begin end =
     (let len = int (length xs);
          k = (if begin < 0 then max (len + begin) 0 else min begin len);
          final = (if end < 0 then max (len + end) 0 else min end len)
      in take (nat (final - k)) (drop (nat k) xs))"

text \<open>
  \<open>Math.ceil(low_bound + (high_bound - low_bound) / 2)\<close>, on the reals: each operand is an
  integer or a half, which a double holds exactly for every index of an array.
\<close>

definition midpoint :: "int \<Rightarrow> int \<Rightarrow> int" where
  "midpoint low_bound high_bound =
     \<lceil>real_of_int low_bound + real_of_int (high_bound - low_bound) / 2\<rceil>"

text \<open>\<open>if (x === undefined) { x = d; }\<close> for an optional argument \<open>x\<close>.\<close>

definition default_to :: "'a \<Rightarrow> 'a option \<Rightarrow> 'a" where
  "default_to d x = (case x of None \<Rightarrow> d | Some v \<Rightarrow> v)"

text \<open>
  \<open>b === n\<close> for a boolean \<open>b\<close> and a number \<open>n\<close>: strict equality of values of
  different types is false.
\<close>

definition strict_equals_bool_number :: "bool \<Rightarrow> int \<Rightarrow> bool" where
  "strict_equals_bool_number b n = False"

section \<open>The element, the host and the plugin's options\<close>

text \<open>
  The children of an element: the single text node that \<open>.text(s)\<close> leaves, or the markup
  that \<open>.html(s)\<close> assigns (any element that holds more than a text node is of this
  kind).
\<close>

datatype content = Text jsstring | Html jsstring

record element =
  content :: content
  css_overflow :: jsstring
  data :: "jsstring \<rightharpoonup> jsstring"

text \<open>
  What the plugin reads from the browser and from jQuery, none of which is in the source:
  the four lengths of an element as it is laid out, the text that markup displays, and
  whether \<open>$.data\<close> exists.
\<close>

record host =
  innerHeight :: "element \<Rightarrow> int"
  innerWidth :: "element \<Rightarrow> int"
  scrollHeight :: "element \<Rightarrow> int"
  scrollWidth :: "element \<Rightarrow> int"
  text_of_html :: "jsstring \<Rightarrow> jsstring"
  has_data :: bool

text \<open>
  The state the plugin works on: one selected element and the console. \<open>oracle_calls\<close>
  is not program state: it counts the calls of \<open>are_words_fitting_in_element\<close>, so that
  the number of measurements can be stated.
\<close>

record world =
  elem :: element
  console :: "jsstring list"
  oracle_calls :: nat

record options =
  ellipsis_string :: jsstring
  split_on_words :: bool

text \<open>\<open>$.fn.ellipterrific.settings\<close>; the ellipsis is U+2026.\<close>

definition settings :: options where
  "settings = \<lparr>ellipsis_string = [0x2026], split_on_words = True\<rparr>"

subsection \<open>The jQuery calls of the plugin\<close>

text \<open>\<open>$(e).text()\<close>\<close>

definition text_get :: "host \<Rightarrow> element \<Rightarrow> jsstring" where
  "text_get h e = (case content e of Text s \<Rightarrow> s | Html m \<Rightarrow> text_of_html h m)"

text \<open>\<open>$(e).text(s)\<close>\<close>

definition text_set :: "jsstring \<Rightarrow> element \<Rightarrow> element" where
  "text_set s e = e\<lparr>content := Text s\<rparr>"

text \<open>\<open>$(e).html(s)\<close>\<close>

definition html_set :: "jsstring \<Rightarrow> element \<Rightarrow> element" where
  "html_set s e = e\<lparr>content := Html s\<rparr>"

text \<open>\<open>$(e).css("overflow", v)\<close>: the model keeps the value as it is written.\<close>

definition css_overflow_set :: "jsstring \<Rightarrow> element \<Rightarrow> element" where
  "css_overflow_set v e = e\<lparr>css_overflow := v\<rparr>"

text \<open>\<open>$(e).data(k, v)\<close>\<close>

definition data_set :: "jsstring \<Rightarrow> jsstring \<Rightarrow> element \<Rightarrow> element" where
  "data_set k v e = e\<lparr>data := (data e)(k \<mapsto> v)\<rparr>"

section \<open>The overflow test\<close>

text \<open>
  \<open>are_words_fitting_in_element\<close>: true when the element overflows once it holds the
  words and the ellipsis.
\<close>

definition are_words_fitting_in_element ::
  "options \<Rightarrow> host \<Rightarrow> jsstring list \<Rightarrow> world \<Rightarrow> bool \<times> world" where
  "are_words_fitting_in_element configured_options h words w =
     (let element = elem w;
          initial_text = text_get h element;
          intitial_height = innerHeight h element;
          initial_width = innerWidth h element;
          element1 =
            (if split_on_words configured_options
             then text_set (join (js '' '') words @ ellipsis_string configured_options) element
             else text_set (trim (join [] words) @ ellipsis_string configured_options) element);
          are_words_overflowing =
            (scrollHeight h element1 > intitial_height \<or> scrollWidth h element1 > initial_width);
          element2 = text_set initial_text element1
      in (are_words_overflowing,
          w\<lparr>elem := element2, oracle_calls := Suc (oracle_calls w)\<rparr>))"

section \<open>The binary search\<close>

lemma midpoint_eq: "midpoint l h = l + (h - l + 1) div 2"
proof -
  define q where "q = (h - l + 1) div 2"
  have "2 * q \<le> h - l + 1" "h - l + 1 < 2 * q + 2"
    unfolding q_def by presburger+
  then have "real_of_int (l + q) - 1 < real_of_int l + real_of_int (h - l) / 2"
    and "real_of_int l + real_of_int (h - l) / 2 \<le> real_of_int (l + q)"
    by (simp_all add: field_simps)
  then show ?thesis
    unfolding midpoint_def q_def [symmetric] by (simp add: ceiling_eq_iff)
qed

function index_for_best_fit ::
  "options \<Rightarrow> host \<Rightarrow> jsstring list \<Rightarrow> int option \<Rightarrow> int option \<Rightarrow> int option \<Rightarrow> world
     \<Rightarrow> int \<times> world" where
  "index_for_best_fit configured_options h words guess low_bound high_bound w =
     (let low_bound = default_to 0 low_bound;
          high_bound = default_to (int (length words) - 1) high_bound
      in if high_bound < low_bound then (- 1, w)
         else
           let mid = midpoint low_bound high_bound;
               guess = default_to mid guess
           in if guess = 0 then (0, w)
              else
                let r1 = are_words_fitting_in_element configured_options h (slice words 0 mid) w;
                    is_midpoint_overflowing = fst r1;
                    r2 = are_words_fitting_in_element configured_options h
                           (slice words 0 (mid + 1)) (snd r1);
                    is_above_midpoint_overflowing = fst r2
                in if is_midpoint_overflowing
                   then index_for_best_fit configured_options h words
                          (Some mid) (Some low_bound) (Some (mid - 1)) (snd r2)
                   else if \<not> is_midpoint_overflowing \<and> \<not> is_above_midpoint_overflowing
                   then index_for_best_fit configured_options h words
                          (Some mid) (Some (mid + 1)) (Some high_bound) (snd r2)
                   else (mid, snd r2))"
  by pat_completeness auto
termination
  by (relation "measure (\<lambda>(c, h, words, g, lo, hi, w).
        nat (default_to (int (length words) - 1) hi - default_to 0 lo + 1))")
     (auto simp: default_to_def midpoint_eq)

declare index_for_best_fit.simps [simp del]

text \<open>
  One invocation of \<open>index_for_best_fit\<close> is its arguments \<open>guess\<close>, \<open>low_bound\<close>,
  \<open>high_bound\<close> and the state it starts in. \<open>recursive_call\<close> gives the invocation that
  an invocation makes in turn (lines 140 to 146), or \<open>None\<close> when it returns a value itself.
\<close>

type_synonym invocation = "int option \<times> int option \<times> int option \<times> world"

definition recursive_call ::
  "options \<Rightarrow> host \<Rightarrow> jsstring list \<Rightarrow> invocation \<Rightarrow> invocation option" where
  "recursive_call configured_options h words i =
     (case i of (guess, low_bound, high_bound, w) \<Rightarrow>
        let low_bound = default_to 0 low_bound;
            high_bound = default_to (int (length words) - 1) high_bound
        in if high_bound < low_bound then None
           else
             let mid = midpoint low_bound high_bound;
                 guess = default_to mid guess
             in if guess = 0 then None
                else
                  let r1 = are_words_fitting_in_element configured_options h (slice words 0 mid) w;
                      is_midpoint_overflowing = fst r1;
                      r2 = are_words_fitting_in_element configured_options h
                             (slice words 0 (mid + 1)) (snd r1);
                      is_above_midpoint_overflowing = fst r2
                  in if is_midpoint_overflowing
                     then Some (Some mid, Some low_bound, Some (mid - 1), snd r2)
                     else if \<not> is_midpoint_overflowing \<and> \<not> is_above_midpoint_overflowing
                     then Some (Some mid, Some (mid + 1), Some high_bound, snd r2)
                     else None)"

text \<open>
  The invocations that the call \<open>index_for_best_fit(element, words)\<close> in the state \<open>w0\<close>
  leads to: the call itself, with its three optional arguments undefined, and every
  recursive call of one of them.
\<close>

inductive invoked :: "options \<Rightarrow> host \<Rightarrow> jsstring list \<Rightarrow> world \<Rightarrow> invocation \<Rightarrow> bool"
  for configured_options h words w0 where
  initial: "invoked configured_options h words w0 (None, None, None, w0)"
| recursive: "invoked configured_options h words w0 i \<Longrightarrow>
     recursive_call configured_options h words i = Some i' \<Longrightarrow>
     invoked configured_options h words w0 i'"

text \<open>The window of an invocation: its bounds, once the defaults are filled in.\<close>

definition window :: "jsstring list \<Rightarrow> invocation \<Rightarrow> int \<times> int" where
  "window words i =
     (case i of (guess, low_bound, high_bound, w) \<Rightarrow>
        (default_to 0 low_bound, default_to (int (length words) - 1) high_bound))"

section \<open>The plugin, on one selected element\<close>

text \<open>
  The words or the characters of the element's text (lines 181 to 183); \<open>None\<close> is the
  \<open>null\<close> that \<open>match\<close> returns.
\<close>

definition text_words_of :: "options \<Rightarrow> jsstring \<Rightarrow> jsstring list option" where
  "text_words_of configured_options initial_text =
     (if split_on_words configured_options
      then match_non_space (trim initial_text)
      else Some (split_chars (trim initial_text)))"

text \<open>
  The function that \<open>$.each\<close> runs on every selected element. In the guard of line 185,
  \<open>! text_words.length === 0\<close> compares the boolean \<open>! text_words.length\<close> with the
  number 0.
\<close>

definition ellipterrific_each :: "options \<Rightarrow> host \<Rightarrow> world \<Rightarrow> world" where
  "ellipterrific_each configured_options h w =
     (let selected_elm = elem w;
          initial_text = text_get h selected_elm
      in case text_words_of configured_options initial_text of
           None \<Rightarrow> w\<lparr>console := console w @ [initial_text]\<rparr>
         | Some text_words \<Rightarrow>
             if strict_equals_bool_number (length text_words = 0) 0
             then w\<lparr>console := console w @ [initial_text]\<rparr>
             else if css_overflow selected_elm = js ''hidden''
             then
               let w1 = w\<lparr>elem := css_overflow_set (js ''visible !important'') selected_elm\<rparr>;
                   r = index_for_best_fit configured_options h text_words None None None w1;
                   index_of_maximal_text_fill = fst r;
                   w2 = snd r;
                   w3 =
                     (if index_of_maximal_text_fill > - 1
                      then
                        let text_words_subset = slice text_words 0 index_of_maximal_text_fill;
                            e1 =
                              (if split_on_words configured_options
                               then html_set (join (js '' '') text_words_subset
                                      @ ellipsis_string configured_options) (elem w2)
                               else html_set (trim (join [] text_words_subset)
                                      @ ellipsis_string configured_options) (elem w2));
                            e2 =
                              (if has_data h
                               then data_set (js ''original text'') initial_text e1
                               else e1)
                        in w2\<lparr>elem := e2\<rparr>
                      else w2)
               in w3\<lparr>elem := css_overflow_set (js ''hidden'') (elem w3)\<rparr>
             else w)"

section \<open>Derived notions\<close>

text \<open>
  The answer of the overflow test for the element \<open>e\<close>, and the element as the test
  leaves it: with its own text as a single text node.
\<close>

definition overflows :: "options \<Rightarrow> host \<Rightarrow> element \<Rightarrow> jsstring list \<Rightarrow> bool" where
  "overflows configured_options h e words =
     fst (are_words_fitting_in_element configured_options h words
            \<lparr>elem = e, console = [], oracle_calls = 0\<rparr>)"

definition restored :: "host \<Rightarrow> element \<Rightarrow> element" where
  "restored h e = text_set (text_get h e) e"

text \<open>
  The overflow test is monotone on the prefixes of \<open>words\<close>: once a prefix overflows, every
  longer one does.
\<close>

definition monotone_oracle :: "options \<Rightarrow> host \<Rightarrow> element \<Rightarrow> jsstring list \<Rightarrow> bool" where
  "monotone_oracle configured_options h e words \<longleftrightarrow>
     (\<forall>j k. j \<le> k \<and> k \<le> length words \<and> overflows configured_options h e (take j words)
        \<longrightarrow> overflows configured_options h e (take k words))"

text \<open>The state in which \<open>ellipterrific_each\<close> starts the search (line 197).\<close>

definition search_start :: "world \<Rightarrow> world" where
  "search_start w = w\<lparr>elem := css_overflow_set (js ''visible !important'') (elem w)\<rparr>"

text \<open>
  Two hosts for the examples, in which markup is displayed as it is written: in
  \<open>limit_host limit\<close> an element overflows when its text is longer than \<open>limit\<close> code
  units, in \<open>only_host n\<close> when its text has exactly \<open>n\<close> code units.
\<close>

definition shown :: "element \<Rightarrow> jsstring" where
  "shown e = (case content e of Text s \<Rightarrow> s | Html m \<Rightarrow> m)"

definition limit_host :: "nat \<Rightarrow> host" where
  "limit_host limit =
     \<lparr>innerHeight = (\<lambda>e. 1), innerWidth = (\<lambda>e. 1),
      scrollHeight = (\<lambda>e. if limit < length (shown e) then 2 else 1),
      scrollWidth = (\<lambda>e. 1), text_of_html = (\<lambda>m. m), has_data = True\<rparr>"

definition only_host :: "nat \<Rightarrow> host" where
  "only_host n =
     \<lparr>innerHeight = (\<lambda>e. 1), innerWidth = (\<lambda>e. 1),
      scrollHeight = (\<lambda>e. if length (shown e) = n then 2 else 1),
      scrollWidth = (\<lambda>e. 1), text_of_html = (\<lambda>m. m), has_data = True\<rparr>"

text \<open>
  A host for the examples that parses markup: \<open><!--\<close> opens a comment, which is not
  displayed, and a comment that is not closed runs to the end of the markup. An element
  overflows when the text it displays is longer than \<open>limit\<close> code units.
\<close>

fun before_comment :: "jsstring \<Rightarrow> jsstring" where
  "before_comment [] = []"
| "before_comment (c # cs) =
     (if take 4 (c # cs) = js ''<!--'' then [] else c # before_comment cs)"

definition comment_host :: "nat \<Rightarrow> host" where
  "comment_host limit =
     \<lparr>innerHeight = (\<lambda>e. 1), innerWidth = (\<lambda>e. 1),
      scrollHeight =
        (\<lambda>e. if limit < length (case content e of Text s \<Rightarrow> s | Html m \<Rightarrow> before_comment m)
             then 2 else 1),
      scrollWidth = (\<lambda>e. 1), text_of_html = before_comment, has_data = True\<rparr>"

text \<open>A state for the examples: an element with the text \<open>s\<close> and the overflow \<open>v\<close>.\<close>

definition page :: "jsstring \<Rightarrow> jsstring \<Rightarrow> world" where
  "page v s =
     \<lparr>elem = \<lparr>content = Text s, css_overflow = v, data = Map.empty\<rparr>,
      console = [], oracle_calls = 0\<rparr>"

section \<open>Basic facts\<close>

subsection \<open>The overflow test and the element\<close>

lemma oracle_eq:
  "are_words_fitting_in_element c h ws w =
     (overflows c h (elem w) ws,
      w\<lparr>elem := restored h (elem w), oracle_calls := Suc (oracle_calls w)\<rparr>)"
  by (simp add: are_words_fitting_in_element_def overflows_def restored_def Let_def text_set_def)

lemma text_get_restored [simp]: "text_get h (restored h e) = text_get h e"
  by (simp add: restored_def text_set_def text_get_def)

lemma restored_idem [simp]: "restored h (restored h e) = restored h e"
  by (simp add: restored_def text_set_def text_get_def)

lemma restored_fields [simp]:
  "css_overflow (restored h e) = css_overflow e" "data (restored h e) = data e"
  by (simp_all add: restored_def text_set_def)

lemma trim_spaces:
  assumes "\<forall>c\<in>set s. is_space c"
  shows "trim s = []"
proof -
  from assms have d: "dropWhile is_space s = []"
    by simp
  show ?thesis
    unfolding trim_def d by simp
qed

subsection \<open>Slices and windows\<close>

lemma slice_0: "0 \<le> e \<Longrightarrow> slice xs 0 e = take (nat e) xs"
  by (simp add: slice_def Let_def min_def)

lemma slice_0_take: "\<exists>j\<le>length xs. slice xs 0 e = take j xs"
proof (cases "0 \<le> e")
  case True
  then have "slice xs 0 e = take (min (nat e) (length xs)) xs"
    by (cases "nat e \<le> length xs") (simp_all add: slice_0 min_def)
  then show ?thesis
    by (metis min.cobounded2)
next
  case False
  then have "slice xs 0 e = take (nat (max (int (length xs) + e) 0)) xs"
    by (simp add: slice_def Let_def)
  moreover from False have "nat (max (int (length xs) + e) 0) \<le> length xs"
    by simp
  ultimately show ?thesis
    by metis
qed

lemma window_left:
  assumes "lo \<le> hb"
  shows "nat (midpoint lo hb - 1 - lo + 1) = nat (hb - lo + 1) div 2"
  using assms unfolding midpoint_eq
  by (simp add: nat_div_distrib)

lemma window_right:
  assumes "lo \<le> hb"
  shows "nat (hb - (midpoint lo hb + 1) + 1) \<le> nat (hb - lo + 1) div 2"
proof -
  have "hb - (midpoint lo hb + 1) + 1 \<le> (hb - lo + 1) div 2"
    unfolding midpoint_eq by presburger
  then have "nat (hb - (midpoint lo hb + 1) + 1) \<le> nat ((hb - lo + 1) div 2)"
    by simp
  then show ?thesis
    using assms by (simp add: nat_div_distrib)
qed

lemma floorlog_ceiling:
  assumes "1 \<le> n"
  shows "floorlog 2 n \<le> nat \<lceil>log 2 (real n)\<rceil> + 1"
proof -
  have "\<lfloor>log 2 (real n)\<rfloor> \<le> \<lceil>log 2 (real n)\<rceil>"
    by (rule floor_le_ceiling)
  then show ?thesis
    using assms by (simp add: floorlog_def nat_mono)
qed

subsection \<open>The search, step by step\<close>

text \<open>One step of the search, with the two overflow tests written out.\<close>

lemma index_for_best_fit_unfold:
  "index_for_best_fit c h ws g l hi w =
     (let lo = default_to 0 l;
          hb = default_to (int (length ws) - 1) hi;
          mid = midpoint lo hb;
          w' = w\<lparr>elem := restored h (elem w), oracle_calls := Suc (Suc (oracle_calls w))\<rparr>
      in if hb < lo then (- 1, w)
         else if default_to mid g = 0 then (0, w)
         else if overflows c h (elem w) (slice ws 0 mid)
         then index_for_best_fit c h ws (Some mid) (Some lo) (Some (mid - 1)) w'
         else if \<not> overflows c h (restored h (elem w)) (slice ws 0 (mid + 1))
         then index_for_best_fit c h ws (Some mid) (Some (mid + 1)) (Some hb) w'
         else (mid, w'))"
  by (subst index_for_best_fit.simps) (simp add: Let_def oracle_eq)

lemma exhausted:
  "default_to (int (length ws) - 1) hi < default_to 0 l \<Longrightarrow>
     index_for_best_fit c h ws g l hi w = (- 1, w)"
  by (subst index_for_best_fit.simps) (simp add: Let_def)

text \<open>\<open>recursive_call\<close> is the recursion of \<open>index_for_best_fit\<close>.\<close>

lemma recursive_call_Some:
  assumes "recursive_call c h ws (g, l, hi, w) = Some (g', l', hi', w')"
  shows "index_for_best_fit c h ws g l hi w = index_for_best_fit c h ws g' l' hi' w'"
  using assms
  by (subst index_for_best_fit.simps) (auto simp: recursive_call_def Let_def split: if_splits)

lemma recursive_call_None:
  assumes "recursive_call c h ws (g, l, hi, w) = None"
  shows "fst (index_for_best_fit c h ws g l hi w)
     \<in> {- 1, 0, midpoint (default_to 0 l) (default_to (int (length ws) - 1) hi)}"
  using assms
  by (subst index_for_best_fit.simps) (auto simp: recursive_call_def Let_def split: if_splits)

lemma recursive_call_window:
  assumes "recursive_call c h ws i = Some i'"
    and "window ws i = (lo, hb)" and "window ws i' = (lo', hb')"
  shows "lo \<le> hb \<and> lo \<le> lo' \<and> hb' \<le> hb \<and> lo' \<le> hb' + 1 \<and> hb' - lo' < hb - lo"
proof -
  obtain g l hi w where i: "i = (g, l, hi, w)"
    by (cases i)
  from assms(2) have lo: "lo = default_to 0 l" and hb: "hb = default_to (int (length ws) - 1) hi"
    by (simp_all add: window_def i)
  have le: "lo \<le> hb"
    using assms(1) by (auto simp: recursive_call_def i Let_def lo hb split: if_splits)
  then have m: "lo \<le> midpoint lo hb" "midpoint lo hb \<le> hb"
    unfolding midpoint_eq by presburger+
  from assms(1)
  have "window ws i' = (lo, midpoint lo hb - 1) \<or> window ws i' = (midpoint lo hb + 1, hb)"
    by (auto simp: recursive_call_def i Let_def lo hb window_def default_to_def split: if_splits)
  with assms(3) le m show ?thesis
    by auto
qed

text \<open>The search leaves the text, the overflow, the data and the console as they were.\<close>

lemma search_frame:
  "text_get h (elem (snd (index_for_best_fit c h ws g l hi w))) = text_get h (elem w) \<and>
   css_overflow (elem (snd (index_for_best_fit c h ws g l hi w))) = css_overflow (elem w) \<and>
   data (elem (snd (index_for_best_fit c h ws g l hi w))) = data (elem w) \<and>
   console (snd (index_for_best_fit c h ws g l hi w)) = console w"
proof (induction c h ws g l hi w rule: index_for_best_fit.induct)
  case (1 c h ws g l hi w)
  show ?case
    apply (subst (1 2 3 4) index_for_best_fit.simps)
    using 1
    apply (simp add: Let_def oracle_eq)
    done
qed

text \<open>
  Two overflow tests for each step that tests, and each step leaves at most half of its
  window.
\<close>

lemma calls_bound_window:
  "oracle_calls (snd (index_for_best_fit c h ws g l hi w))
     \<le> oracle_calls w
        + 2 * floorlog 2 (nat (default_to (int (length ws) - 1) hi - default_to 0 l + 1))"
proof (induction c h ws g l hi w rule: index_for_best_fit.induct)
  case (1 c h ws g l hi w)
  define lo where "lo = default_to 0 l"
  define hb where "hb = default_to (int (length ws) - 1) hi"
  define mid where "mid = midpoint lo hb"
  define w' where "w' = w\<lparr>elem := restored h (elem w), oracle_calls := Suc (Suc (oracle_calls w))\<rparr>"
  note unf = index_for_best_fit_unfold [of c h ws g l hi w, folded lo_def hb_def, unfolded Let_def,
      folded mid_def w'_def]
  show ?case
  proof (cases "hb < lo \<or> default_to mid g = 0")
    case True
    then show ?thesis
      unfolding unf by auto
  next
    case False
    then have le: "lo \<le> hb" and g: "default_to mid g \<noteq> 0"
      by auto
    have fl: "floorlog 2 (nat (hb - lo + 1)) = floorlog 2 (nat (hb - lo + 1) div 2) + 1"
      using le by (subst compute_floorlog) simp
    show ?thesis
    proof (cases "overflows c h (elem w) (slice ws 0 mid)")
      case True
      have "oracle_calls (snd (index_for_best_fit c h ws (Some mid) (Some lo) (Some (mid - 1)) w'))
          \<le> oracle_calls w' + 2 * floorlog 2 (nat (mid - 1 - lo + 1))"
        using "1.IH"(1) [OF lo_def hb_def _ mid_def refl _ refl refl refl refl] le g True
        by (simp add: oracle_eq w'_def default_to_def)
      then show ?thesis
        unfolding unf lo_def [symmetric] hb_def [symmetric]
        using le g True fl window_left [OF le]
        by (simp add: w'_def mid_def)
    next
      case no: False
      show ?thesis
      proof (cases "overflows c h (restored h (elem w)) (slice ws 0 (mid + 1))")
        case True
        then show ?thesis
          unfolding unf lo_def [symmetric] hb_def [symmetric]
          using le g no fl by (simp add: w'_def)
      next
        case False
        have "oracle_calls (snd (index_for_best_fit c h ws (Some mid) (Some (mid + 1)) (Some hb) w'))
            \<le> oracle_calls w' + 2 * floorlog 2 (nat (hb - (mid + 1) + 1))"
          using "1.IH"(2) [OF lo_def hb_def _ mid_def refl _ refl refl refl refl] le g no False
          by (simp add: oracle_eq w'_def default_to_def)
        moreover
        have "floorlog 2 (nat (hb - (mid + 1) + 1)) \<le> floorlog 2 (nat (hb - lo + 1) div 2)"
          using window_right [OF le] unfolding mid_def by (rule floorlog_mono)
        ultimately show ?thesis
          unfolding unf lo_def [symmetric] hb_def [symmetric]
          using le g no False fl
          by (simp add: w'_def)
      qed
    qed
  qed
qed

text \<open>
  When no prefix overflows, a search whose lower bound is not negative and whose guess is
  not 0 ends with - 1.
\<close>

lemma all_fit_sentinel:
  assumes "\<forall>j\<le>length ws. \<not> overflows c h (elem w) (take j ws)"
    and "\<forall>j\<le>length ws. \<not> overflows c h (restored h (elem w)) (take j ws)"
    and "0 \<le> default_to 0 l"
    and "default_to (int (length ws) - 1) hi < default_to 0 l
         \<or> default_to (midpoint (default_to 0 l) (default_to (int (length ws) - 1) hi)) g \<noteq> 0"
  shows "fst (index_for_best_fit c h ws g l hi w) = - 1"
  using assms
proof (induction c h ws g l hi w rule: index_for_best_fit.induct)
  case (1 c h ws g l hi w)
  define lo where "lo = default_to 0 l"
  define hb where "hb = default_to (int (length ws) - 1) hi"
  define mid where "mid = midpoint lo hb"
  define w' where "w' = w\<lparr>elem := restored h (elem w), oracle_calls := Suc (Suc (oracle_calls w))\<rparr>"
  note unf = index_for_best_fit_unfold [of c h ws g l hi w, folded lo_def hb_def, unfolded Let_def,
      folded mid_def w'_def]
  have fit: "\<not> overflows c h (elem w) (slice ws 0 k)"
    "\<not> overflows c h (restored h (elem w)) (slice ws 0 k)" for k
    using "1.prems"(1,2) slice_0_take [of ws k] by auto
  show ?case
  proof (cases "hb < lo")
    case True
    then show ?thesis
      unfolding unf by simp
  next
    case False
    with "1.prems"(4) have g: "default_to mid g \<noteq> 0"
      by (simp add: lo_def hb_def mid_def)
    have "0 \<le> lo"
      using "1.prems"(3) by (simp add: lo_def)
    with False have next_guess: "hb < mid + 1 \<or> mid \<noteq> 0" and "0 \<le> mid"
      unfolding mid_def midpoint_eq by presburger+
    have "fst (index_for_best_fit c h ws (Some mid) (Some (mid + 1)) (Some hb) w') = - 1"
      using "1.IH"(2) [OF lo_def hb_def False mid_def refl g refl refl refl refl]
        fit "1.prems"(1,2) next_guess \<open>0 \<le> mid\<close>
      by (simp add: oracle_eq w'_def default_to_def)
    then show ?thesis
      unfolding unf using False g fit by simp
  qed
qed

text \<open>
  When the overflow test answers the same before and after its first call, a search whose
  lower bound is not negative and whose guess is not 0 returns - 1 or a boundary: a
  prefix that does not overflow, followed by one that does. From the call
  \<open>index_for_best_fit(element, words)\<close> this is every search on two words or more.
\<close>

lemma boundary:
  assumes "overflows c h (restored h (elem w)) = overflows c h (elem w)"
    and "0 \<le> default_to 0 l"
    and "default_to (int (length ws) - 1) hi < default_to 0 l
         \<or> default_to (midpoint (default_to 0 l) (default_to (int (length ws) - 1) hi)) g \<noteq> 0"
    and "fst (index_for_best_fit c h ws g l hi w) = k"
    and "k \<noteq> - 1"
  shows "0 \<le> k \<and> \<not> overflows c h (elem w) (take (nat k) ws)
         \<and> overflows c h (elem w) (take (nat k + 1) ws)"
  using assms
proof (induction c h ws g l hi w rule: index_for_best_fit.induct)
  case (1 c h ws g l hi w)
  define lo where "lo = default_to 0 l"
  define hb where "hb = default_to (int (length ws) - 1) hi"
  define mid where "mid = midpoint lo hb"
  define w' where "w' = w\<lparr>elem := restored h (elem w), oracle_calls := Suc (Suc (oracle_calls w))\<rparr>"
  note unf = index_for_best_fit_unfold [of c h ws g l hi w, folded lo_def hb_def, unfolded Let_def,
      folded mid_def w'_def]
  note stable = "1.prems"(1)
  have le: "\<not> hb < lo"
    using "1.prems"(4,5) unfolding unf by auto
  with "1.prems"(3) have g: "default_to mid g \<noteq> 0"
    by (simp add: lo_def hb_def mid_def)
  have "0 \<le> lo"
    using "1.prems"(2) by (simp add: lo_def)
  with le have right_guess: "hb < mid + 1 \<or> mid \<noteq> 0"
    and left_guess: "mid - 1 < lo \<or> mid \<noteq> 0"
    and "0 \<le> mid"
    unfolding mid_def midpoint_eq by presburger+
  show ?case
  proof (cases "overflows c h (elem w) (slice ws 0 mid)")
    case True
    then have "fst (index_for_best_fit c h ws (Some mid) (Some lo) (Some (mid - 1)) w') = k"
      using "1.prems"(4) le g unfolding unf by simp
    then show ?thesis
      using "1.IH"(1) [OF lo_def hb_def le mid_def refl g refl refl refl refl]
        True stable left_guess \<open>0 \<le> lo\<close> "1.prems"(5)
      by (simp add: oracle_eq w'_def default_to_def)
  next
    case no: False
    show ?thesis
    proof (cases "overflows c h (elem w) (slice ws 0 (mid + 1))")
      case True
      then have "k = mid"
        using "1.prems"(4) le g no stable unfolding unf by simp
      with True no \<open>0 \<le> mid\<close> show ?thesis
        by (simp add: slice_0 nat_add_distrib)
    next
      case False
      then have "fst (index_for_best_fit c h ws (Some mid) (Some (mid + 1)) (Some hb) w') = k"
        using "1.prems"(4) le g no stable unfolding unf by simp
      then show ?thesis
        using "1.IH"(2) [OF lo_def hb_def le mid_def refl g refl refl refl refl]
          False no stable right_guess \<open>0 \<le> mid\<close> "1.prems"(5)
        by (simp add: oracle_eq w'_def default_to_def)
    qed
  qed
qed

lemma boundary_of_two_words:
  assumes "2 \<le> length ws"
    and "overflows c h (restored h (elem w)) = overflows c h (elem w)"
    and "fst (index_for_best_fit c h ws None None None w) = k"
    and "k \<noteq> - 1"
  shows "0 \<le> k \<and> \<not> overflows c h (elem w) (take (nat k) ws)
         \<and> overflows c h (elem w) (take (nat k + 1) ws)"
proof -
  have "midpoint 0 (int (length ws) - 1) \<noteq> 0"
    using assms(1) unfolding midpoint_eq by presburger
  then show ?thesis
    using assms(2-4) by (intro boundary [where g = None and l = None and hi = None])
      (simp_all add: default_to_def)
qed

subsection \<open>The plugin\<close>

lemma not_hidden:
  assumes "css_overflow (elem w) \<noteq> js ''hidden''"
  shows "elem (ellipterrific_each c h w) = elem w"
    and "oracle_calls (ellipterrific_each c h w) = oracle_calls w"
  using assms
  by (simp_all add: ellipterrific_each_def Let_def strict_equals_bool_number_def
      split: option.split)

lemma ellipterrific_each_hidden:
  assumes "text_words_of c (text_get h (elem w)) = Some tw"
    and "css_overflow (elem w) = js ''hidden''"
  shows "ellipterrific_each c h w =
     (let r = index_for_best_fit c h tw None None None (search_start w);
          w2 = snd r
      in if fst r > - 1
         then w2\<lparr>elem := css_overflow_set (js ''hidden'')
                 ((if has_data h then data_set (js ''original text'') (text_get h (elem w))
                   else (\<lambda>e. e))
                    (html_set ((if split_on_words c then join (js '' '') (slice tw 0 (fst r))
                                else trim (join [] (slice tw 0 (fst r)))) @ ellipsis_string c)
                       (elem w2)))\<rparr>
         else w2\<lparr>elem := css_overflow_set (js ''hidden'') (elem w2)\<rparr>)"
  using assms
  by (simp add: ellipterrific_each_def Let_def strict_equals_bool_number_def search_start_def)

lemma sentinel_text:
  assumes "text_words_of c (text_get h (elem w)) = Some tw"
    and "fst (index_for_best_fit c h tw None None None (search_start w)) = - 1"
  shows "text_get h (elem (ellipterrific_each c h w)) = text_get h (elem w)"
proof (cases "css_overflow (elem w) = js ''hidden''")
  case True
  have "text_get h (elem (snd (index_for_best_fit c h tw None None None (search_start w))))
      = text_get h (elem (search_start w))"
    using search_frame by blast
  with assms True show ?thesis
    by (simp add: ellipterrific_each_hidden Let_def css_overflow_set_def text_get_def
        search_start_def)
next
  case False
  then show ?thesis by (simp add: not_hidden)
qed

text \<open>
  What the plugin writes when the search returns an index: the first words and the ellipsis
  string, as markup. A host that displays this markup as it is written displays that text.
\<close>

lemma html_written:
  assumes "text_words_of c (text_get h (elem w)) = Some tw"
    and "css_overflow (elem w) = js ''hidden''"
    and "fst (index_for_best_fit c h tw None None None (search_start w)) = k"
    and "0 \<le> k"
  shows "content (elem (ellipterrific_each c h w)) =
     Html ((if split_on_words c then join (js '' '') (take (nat k) tw)
            else trim (join [] (take (nat k) tw))) @ ellipsis_string c)"
  using assms
  by (simp add: ellipterrific_each_hidden Let_def css_overflow_set_def data_set_def html_set_def
      slice_0)

lemma literal_markup_displayed:
  assumes "text_words_of c (text_get h (elem w)) = Some tw"
    and "css_overflow (elem w) = js ''hidden''"
    and "fst (index_for_best_fit c h tw None None None (search_start w)) = k"
    and "0 \<le> k"
    and "s = (if split_on_words c then join (js '' '') (take (nat k) tw)
              else trim (join [] (take (nat k) tw))) @ ellipsis_string c"
    and "text_of_html h s = s"
  shows "text_get h (elem (ellipterrific_each c h w)) = s"
proof -
  have "content (elem (ellipterrific_each c h w)) = Html s"
    unfolding assms(5) using assms(1-4) by (rule html_written)
  with assms(6) show ?thesis
    by (simp add: text_get_def)
qed

subsection \<open>Running the examples\<close>

lemmas example_defs =
  page_def search_start_def limit_host_def only_host_def shown_def settings_def js_def
  text_get_def text_set_def html_set_def css_overflow_set_def data_set_def
  overflows_def are_words_fitting_in_element_def restored_def
  text_words_of_def match_non_space_def split_chars_def trim_def is_space_def
  strict_equals_bool_number_def default_to_def midpoint_eq slice_def

lemmas run_defs = ellipterrific_each_def index_for_best_fit.simps recursive_call_def window_def

section \<open>The claims\<close>

subsection \<open>C1: the value of the search is a boundary\<close>

text \<open>
  Claim C1: for a sequence of words that is not empty and an overflow test that is
  monotone in the length of the prefix, a value \<open>k\<close> of the search other than - 1 is a
  boundary: the first \<open>k\<close> words with the ellipsis do not overflow, and the first \<open>k + 1\<close>
  do, or \<open>k\<close> is the number of words.

  The search does not do so on a single word. For the text \<open>Hi\<close> in an element that 12
  code units fill, it returns 0 before any overflow test, although neither the ellipsis
  alone nor \<open>Hi\<close> with the ellipsis overflows, and 0 is not the number of words. On two
  words or more, \<open>boundary_of_two_words\<close> gives the claim.
\<close>

theorem single_token_returns_zero:
  "index_for_best_fit settings (limit_host 12) [js ''Hi''] None None None
       (search_start (page (js ''hidden'') (js ''Hi'')))
     = (0, search_start (page (js ''hidden'') (js ''Hi''))) \<and>
   \<not> overflows settings (limit_host 12) (elem (search_start (page (js ''hidden'') (js ''Hi''))))
       (take 0 [js ''Hi'']) \<and>
   \<not> overflows settings (limit_host 12) (elem (search_start (page (js ''hidden'') (js ''Hi''))))
       (take 1 [js ''Hi'']) \<and>
   (0::nat) \<noteq> length [js ''Hi'']"
  by (simp add: run_defs example_defs)

subsection \<open>C2: a text that fits is left as it is\<close>

text \<open>
  Claim C2, as amended: for every text of two words or more (or two characters, in
  character mode) and every overflow test that is monotone in the length of the prefix
  and under which all the words with the ellipsis do not overflow, the text of the element
  after the plugin is its text before. The test is taken in the two states in which the
  search calls it: the element as the search finds it, and the element as a test leaves
  it.
\<close>

theorem fitting_text_unchanged:
  assumes "text_words_of configured_options (text_get h (elem w)) = Some tw"
    and "2 \<le> length tw"
    and "\<forall>e\<in>{elem (search_start w), restored h (elem (search_start w))}.
           monotone_oracle configured_options h e tw \<and> \<not> overflows configured_options h e tw"
  shows "text_get h (elem (ellipterrific_each configured_options h w)) = text_get h (elem w)"
proof -
  have fits: "\<forall>j\<le>length tw. \<not> overflows configured_options h e (take j tw)"
    if "e \<in> {elem (search_start w), restored h (elem (search_start w))}" for e
  proof (intro allI impI notI)
    fix j
    assume "j \<le> length tw" and "overflows configured_options h e (take j tw)"
    moreover from that assms(3) have "monotone_oracle configured_options h e tw"
      and "\<not> overflows configured_options h e tw"
      by auto
    ultimately show False
      unfolding monotone_oracle_def by (metis order_refl take_all)
  qed
  have "midpoint 0 (int (length tw) - 1) \<noteq> 0"
    using assms(2) unfolding midpoint_eq by presburger
  then have "fst (index_for_best_fit configured_options h tw None None None (search_start w)) = - 1"
    using fits by (intro all_fit_sentinel) (simp_all add: default_to_def)
  with assms(1) show ?thesis
    by (rule sentinel_text)
qed

text \<open>The text \<open>Hi there\<close> in an element that 12 code units fill.\<close>

theorem fitting_text_unchanged_witness:
  "text_words_of settings (text_get (limit_host 12) (elem (page (js ''hidden'') (js ''Hi there''))))
     = Some [js ''Hi'', js ''there''] \<and>
   \<not> overflows settings (limit_host 12) (elem (search_start (page (js ''hidden'') (js ''Hi there''))))
       [js ''Hi'', js ''there''] \<and>
   text_get (limit_host 12)
       (elem (ellipterrific_each settings (limit_host 12) (page (js ''hidden'') (js ''Hi there''))))
     = js ''Hi there''"
proof -
  let ?w = "page (js ''hidden'') (js ''Hi there'')"
  let ?tw = "[js ''Hi'', js ''there'']"
  let ?e = "elem (search_start ?w)"
  have t: "text_words_of settings (text_get (limit_host 12) (elem ?w)) = Some ?tw"
    by (simp add: example_defs)
  have r: "restored (limit_host 12) ?e = ?e"
    by (simp add: example_defs)
  have prefixes: "take j ?tw = [] \<or> take j ?tw = [js ''Hi''] \<or> take j ?tw = ?tw" for j
    by (cases j; cases "j - 1") simp_all
  have fit: "\<not> overflows settings (limit_host 12) ?e []"
    "\<not> overflows settings (limit_host 12) ?e [js ''Hi'']"
    "\<not> overflows settings (limit_host 12) ?e ?tw"
    by (simp_all add: example_defs)
  have "\<not> overflows settings (limit_host 12) ?e (take j ?tw)" for j
    using prefixes [of j] fit by metis
  then have m: "monotone_oracle settings (limit_host 12) ?e ?tw"
    unfolding monotone_oracle_def by blast
  have g: "text_get (limit_host 12) (elem ?w) = js ''Hi there''"
    by (simp add: page_def text_get_def)
  show ?thesis
    using fitting_text_unchanged [OF t, unfolded r] m fit(3) t g
    by simp
qed

text \<open>
  Claim C2 as it is stated fails twice. The single word \<open>Hi\<close>, which fits with the
  ellipsis, is replaced by the ellipsis alone. And under a test that is not monotone, the
  text \<open>a b\<close>, which fits with the ellipsis, is replaced by the ellipsis too: here only
  \<open>a\<close> with the ellipsis overflows.
\<close>

theorem fitting_text_counterexample:
  "\<not> overflows settings (limit_host 12) (elem (search_start (page (js ''hidden'') (js ''Hi''))))
       [js ''Hi''] \<and>
   text_words_of settings (js ''Hi'') = Some [js ''Hi''] \<and>
   text_get (limit_host 12)
       (elem (ellipterrific_each settings (limit_host 12) (page (js ''hidden'') (js ''Hi''))))
     = [0x2026] \<and>
   overflows settings (only_host 2) (elem (search_start (page (js ''hidden'') (js ''a b''))))
       [js ''a''] \<and>
   \<not> overflows settings (only_host 2) (elem (search_start (page (js ''hidden'') (js ''a b''))))
       [js ''a'', js ''b''] \<and>
   text_words_of settings (js ''a b'') = Some [js ''a'', js ''b''] \<and>
   text_get (only_host 2)
       (elem (ellipterrific_each settings (only_host 2) (page (js ''hidden'') (js ''a b''))))
     = [0x2026]"
  by (simp add: run_defs example_defs)

subsection \<open>C3: the guess 0\<close>

text \<open>
  Claim C3, as amended: in every step of the search whose window is not exhausted, if the
  guess is 0, the search returns 0 at once and calls no overflow test; the state is the
  one it started in. The guess is the argument \<open>guess\<close>, which a recursive step receives
  from its caller, and the midpoint where that argument is undefined, as in the first
  step.
\<close>

theorem guess_zero_returns_zero:
  assumes "\<not> default_to (int (length words) - 1) high_bound < default_to 0 low_bound"
    and "default_to (midpoint (default_to 0 low_bound)
           (default_to (int (length words) - 1) high_bound)) guess = 0"
  shows "index_for_best_fit configured_options h words guess low_bound high_bound w = (0, w)"
  using assms by (subst index_for_best_fit.simps) (simp add: Let_def)

text \<open>The first step on the single word \<open>Hi\<close>: its midpoint is 0.\<close>

theorem guess_zero_returns_zero_witness:
  "midpoint 0 (int (length [js ''Hi'']) - 1) = 0 \<and>
   index_for_best_fit settings (limit_host 12) [js ''Hi''] None None None
       (page (js ''hidden'') (js ''Hi''))
     = (0, page (js ''hidden'') (js ''Hi''))"
  using guess_zero_returns_zero [of "[js ''Hi'']" None None None settings "limit_host 12"
      "page (js ''hidden'') (js ''Hi'')"]
  by (simp add: default_to_def midpoint_eq)

text \<open>
  Claim C3 as it is stated fails in a recursive step. On the words \<open>a\<close> and \<open>b\<close> in an
  element that nothing fits, the first step calls the search again with the guess 1 and
  the window from 0 to 0. The midpoint of that step is 0, and the step calls the overflow
  test twice and returns - 1.
\<close>

theorem midpoint_zero_counterexample:
  "invoked settings (limit_host 0) [js ''a'', js ''b''] (page (js ''hidden'') (js ''a b''))
     (Some 1, Some 0, Some 0, (page (js ''hidden'') (js ''a b''))\<lparr>oracle_calls := 2\<rparr>) \<and>
   midpoint 0 0 = 0 \<and>
   index_for_best_fit settings (limit_host 0) [js ''a'', js ''b''] (Some 1) (Some 0) (Some 0)
       ((page (js ''hidden'') (js ''a b''))\<lparr>oracle_calls := 2\<rparr>)
     = (- 1, (page (js ''hidden'') (js ''a b''))\<lparr>oracle_calls := 4\<rparr>)"
proof (intro conjI)
  have "recursive_call settings (limit_host 0) [js ''a'', js ''b'']
      (None, None, None, page (js ''hidden'') (js ''a b''))
    = Some (Some 1, Some 0, Some 0, (page (js ''hidden'') (js ''a b''))\<lparr>oracle_calls := 2\<rparr>)"
    by (simp add: run_defs example_defs)
  with invoked.initial
  show "invoked settings (limit_host 0) [js ''a'', js ''b''] (page (js ''hidden'') (js ''a b''))
     (Some 1, Some 0, Some 0, (page (js ''hidden'') (js ''a b''))\<lparr>oracle_calls := 2\<rparr>)"
    by (rule invoked.recursive)
  show "midpoint 0 0 = 0"
    by (simp add: midpoint_eq)
  show "index_for_best_fit settings (limit_host 0) [js ''a'', js ''b''] (Some 1) (Some 0) (Some 0)
       ((page (js ''hidden'') (js ''a b''))\<lparr>oracle_calls := 2\<rparr>)
     = (- 1, (page (js ''hidden'') (js ''a b''))\<lparr>oracle_calls := 4\<rparr>)"
    by (simp add: run_defs example_defs)
qed

subsection \<open>C4: the exhausted window\<close>

text \<open>
  Claim C4: a search that is called with an exhausted window, \<open>high_bound < low_bound\<close>,
  returns - 1 in the state it started in, so without any overflow test; and when the
  search that the plugin starts returns - 1, the text of the element after the plugin is
  its text before.
\<close>

theorem sentinel_keeps_text:
  "(default_to (int (length words) - 1) high_bound < default_to 0 low_bound \<longrightarrow>
      index_for_best_fit configured_options h words guess low_bound high_bound w = (- 1, w)) \<and>
   (text_words_of configured_options (text_get h (elem w)) = Some tw \<and>
    fst (index_for_best_fit configured_options h tw None None None (search_start w)) = - 1 \<longrightarrow>
      text_get h (elem (ellipterrific_each configured_options h w)) = text_get h (elem w))"
  using exhausted sentinel_text by blast

text \<open>The text \<open>Hi there\<close> in an element that 12 code units fill.\<close>

theorem sentinel_keeps_text_witness:
  "index_for_best_fit settings (limit_host 12) [js ''Hi'', js ''there''] (Some 1) (Some 2) (Some 1)
       (page (js ''hidden'') (js ''Hi there''))
     = (- 1, page (js ''hidden'') (js ''Hi there'')) \<and>
   fst (index_for_best_fit settings (limit_host 12) [js ''Hi'', js ''there''] None None None
       (search_start (page (js ''hidden'') (js ''Hi there'')))) = - 1 \<and>
   text_get (limit_host 12)
       (elem (ellipterrific_each settings (limit_host 12) (page (js ''hidden'') (js ''Hi there''))))
     = js ''Hi there''"
proof -
  have t: "text_words_of settings
      (text_get (limit_host 12) (elem (page (js ''hidden'') (js ''Hi there''))))
      = Some [js ''Hi'', js ''there'']"
    by (simp add: example_defs)
  have s: "fst (index_for_best_fit settings (limit_host 12) [js ''Hi'', js ''there''] None None None
       (search_start (page (js ''hidden'') (js ''Hi there'')))) = - 1"
    by (simp add: run_defs example_defs)
  have x: "default_to (int (length [js ''Hi'', js ''there'']) - 1) (Some 1) < default_to 0 (Some 2)"
    by (simp add: default_to_def)
  have g: "text_get (limit_host 12) (elem (page (js ''hidden'') (js ''Hi there''))) = js ''Hi there''"
    by (simp add: page_def text_get_def)
  show ?thesis
    using sentinel_keeps_text [of "[js ''Hi'', js ''there'']" "Some 1" "Some 2" settings
        "limit_host 12" "Some 1" "page (js ''hidden'') (js ''Hi there'')" "[js ''Hi'', js ''there'']"]
      t s x g
    by simp
qed

subsection \<open>C5: a text without words\<close>

text \<open>
  Claim C5: when the text of the element is empty or all white space, in word mode and in
  character mode, the plugin leaves the element as it is, its text included, and calls no
  overflow test.
\<close>

theorem empty_text_unchanged:
  assumes "\<forall>c\<in>set (text_get h (elem w)). is_space c"
  shows "elem (ellipterrific_each configured_options h w) = elem w \<and>
         oracle_calls (ellipterrific_each configured_options h w) = oracle_calls w"
proof -
  have t: "trim (text_get h (elem w)) = []"
    using assms by (rule trim_spaces)
  show ?thesis
  proof (cases "split_on_words configured_options")
    case True
    then have "text_words_of configured_options (text_get h (elem w)) = None"
      by (simp add: text_words_of_def t match_non_space_def)
    then show ?thesis
      by (simp add: ellipterrific_each_def Let_def)
  next
    case False
    then have "text_words_of configured_options (text_get h (elem w)) = Some []"
      by (simp add: text_words_of_def t split_chars_def)
    then show ?thesis
      by (simp add: ellipterrific_each_def Let_def strict_equals_bool_number_def
          exhausted default_to_def css_overflow_set_def)
  qed
qed

text \<open>A text of two spaces, in word mode and in character mode.\<close>

theorem empty_text_unchanged_witness:
  "text_get (limit_host 0) (elem (page (js ''hidden'') (js ''  ''))) = js ''  '' \<and>
   elem (ellipterrific_each settings (limit_host 0) (page (js ''hidden'') (js ''  '')))
     = elem (page (js ''hidden'') (js ''  '')) \<and>
   oracle_calls (ellipterrific_each settings (limit_host 0) (page (js ''hidden'') (js ''  ''))) = 0 \<and>
   elem (ellipterrific_each (settings\<lparr>split_on_words := False\<rparr>) (limit_host 0)
       (page (js ''hidden'') (js ''  '')))
     = elem (page (js ''hidden'') (js ''  '')) \<and>
   oracle_calls (ellipterrific_each (settings\<lparr>split_on_words := False\<rparr>) (limit_host 0)
       (page (js ''hidden'') (js ''  ''))) = 0"
  using empty_text_unchanged [of "limit_host 0" "page (js ''hidden'') (js ''  '')" settings]
    empty_text_unchanged [of "limit_host 0" "page (js ''hidden'') (js ''  '')"
      "settings\<lparr>split_on_words := False\<rparr>"]
  by (simp add: page_def js_def text_get_def is_space_def)

subsection \<open>C6: a truncated text ends with the ellipsis\<close>

text \<open>
  Claim C6: whenever the search returns \<open>k\<close> with \<open>0 \<le> k\<close> and \<open>k\<close> below the number of
  words, the text that the element displays ends with the ellipsis string of the options,
  in word mode and in character mode.

  The plugin does not do so for words that hold markup: it measures the words as text,
  with \<open>.text()\<close> (lines 73 and 77), and writes them as markup, with \<open>.html()\<close> (lines 210
  and 214). For the text \<open>x <!-- y z\<close> in an element that 7 code units fill, the search
  returns 2 and the plugin writes \<open>x <!--\<close> and the ellipsis; the comment takes the
  ellipsis, and the element displays \<open>x\<close> and a space. In a host that displays what is
  written as it is, \<open>literal_markup_displayed\<close> gives the claim.
\<close>

theorem markup_hides_marker:
  "text_words_of settings
       (text_get (comment_host 7) (elem (page (js ''hidden'') (js ''x <!-- y z''))))
     = Some [js ''x'', js ''<!--'', js ''y'', js ''z''] \<and>
   fst (index_for_best_fit settings (comment_host 7) [js ''x'', js ''<!--'', js ''y'', js ''z'']
          None None None (search_start (page (js ''hidden'') (js ''x <!-- y z'')))) = 2 \<and>
   content (elem (ellipterrific_each settings (comment_host 7)
       (page (js ''hidden'') (js ''x <!-- y z''))))
     = Html (js ''x <!--'' @ ellipsis_string settings) \<and>
   text_get (comment_host 7)
       (elem (ellipterrific_each settings (comment_host 7)
          (page (js ''hidden'') (js ''x <!-- y z''))))
     = js ''x ''"
  by (simp add: run_defs example_defs comment_host_def)

subsection \<open>C7: the window\<close>

text \<open>
  Claim C7: every invocation of the search that the call \<open>index_for_best_fit(element,
  words)\<close> leads to has a window with \<open>0 \<le> low\<close>, \<open>low \<le> high + 1\<close> and
  \<open>high + 1 \<le> length words\<close>; and the window of the invocation it makes in turn lies in
  its own window and is shorter.
\<close>

theorem window_invariant:
  assumes "invoked configured_options h words w0 i"
  shows "(case window words i of (low, high) \<Rightarrow>
            0 \<le> low \<and> low \<le> high + 1 \<and> high + 1 \<le> int (length words)) \<and>
         (\<forall>i'. recursive_call configured_options h words i = Some i' \<longrightarrow>
            (case (window words i, window words i') of ((low, high), (low', high')) \<Rightarrow>
               low \<le> low' \<and> high' \<le> high \<and> high' - low' < high - low))"
proof -
  from assms have "case window words i of (low, high) \<Rightarrow>
      0 \<le> low \<and> low \<le> high + 1 \<and> high + 1 \<le> int (length words)"
  proof (induction rule: invoked.induct)
    case initial
    show ?case
      by (simp add: window_def default_to_def)
  next
    case (recursive i i')
    obtain lo hb lo' hb' where w: "window words i = (lo, hb)" "window words i' = (lo', hb')"
      by (metis surj_pair)
    with recursive.IH recursive_call_window [OF recursive.hyps(2) w] show ?case
      by simp
  qed
  moreover have "case (window words i, window words i') of ((low, high), (low', high')) \<Rightarrow>
      low \<le> low' \<and> high' \<le> high \<and> high' - low' < high - low"
    if "recursive_call configured_options h words i = Some i'" for i'
  proof -
    obtain lo hb lo' hb' where w: "window words i = (lo, hb)" "window words i' = (lo', hb')"
      by (metis surj_pair)
    with recursive_call_window [OF that w] show ?thesis
      by simp
  qed
  ultimately show ?thesis
    by blast
qed

text \<open>
  Five words in an element that 3 code units fill: the second invocation has the window
  from 0 to 1, and the third the window from 0 to 0.
\<close>

theorem window_invariant_witness:
  "invoked settings (limit_host 3) [js ''The'', js ''quick'', js ''brown'', js ''fox'', js ''jumps'']
     (page (js ''hidden'') (js ''The quick brown fox jumps''))
     (Some 2, Some 0, Some 1,
      (page (js ''hidden'') (js ''The quick brown fox jumps''))\<lparr>oracle_calls := 2\<rparr>) \<and>
   window [js ''The'', js ''quick'', js ''brown'', js ''fox'', js ''jumps'']
     (Some 2, Some 0, Some 1,
      (page (js ''hidden'') (js ''The quick brown fox jumps''))\<lparr>oracle_calls := 2\<rparr>)
     = (0, 1) \<and>
   recursive_call settings (limit_host 3)
     [js ''The'', js ''quick'', js ''brown'', js ''fox'', js ''jumps'']
     (Some 2, Some 0, Some 1,
      (page (js ''hidden'') (js ''The quick brown fox jumps''))\<lparr>oracle_calls := 2\<rparr>)
     = Some (Some 1, Some 0, Some 0,
         (page (js ''hidden'') (js ''The quick brown fox jumps''))\<lparr>oracle_calls := 4\<rparr>) \<and>
   window [js ''The'', js ''quick'', js ''brown'', js ''fox'', js ''jumps'']
     (Some 1, Some 0, Some 0,
      (page (js ''hidden'') (js ''The quick brown fox jumps''))\<lparr>oracle_calls := 4\<rparr>)
     = (0, 0)"
proof -
  let ?ws = "[js ''The'', js ''quick'', js ''brown'', js ''fox'', js ''jumps'']"
  let ?w = "page (js ''hidden'') (js ''The quick brown fox jumps'')"
  have "recursive_call settings (limit_host 3) ?ws (None, None, None, ?w)
      = Some (Some 2, Some 0, Some 1, ?w\<lparr>oracle_calls := 2\<rparr>)"
    by (simp add: run_defs example_defs)
  with invoked.initial
  have i: "invoked settings (limit_host 3) ?ws ?w (Some 2, Some 0, Some 1, ?w\<lparr>oracle_calls := 2\<rparr>)"
    by (rule invoked.recursive)
  have r: "recursive_call settings (limit_host 3) ?ws (Some 2, Some 0, Some 1, ?w\<lparr>oracle_calls := 2\<rparr>)
      = Some (Some 1, Some 0, Some 0, ?w\<lparr>oracle_calls := 4\<rparr>)"
    by (simp add: run_defs example_defs)
  show ?thesis
    using window_invariant [OF i] i r
    by (simp add: window_def default_to_def)
qed

subsection \<open>C8: the number of overflow tests\<close>

text \<open>
  Claim C8: on \<open>n \<ge> 1\<close> words and with any overflow test, the search returns, having
  called the overflow test at most \<open>2 * \<lceil>log 2 n\<rceil> + 2\<close> times. That it returns is the
  termination of \<open>index_for_best_fit\<close>, proved where it is defined for all arguments.
\<close>

theorem oracle_call_bound:
  assumes "1 \<le> length words"
  shows "oracle_calls (snd (index_for_best_fit configured_options h words None None None w))
     \<le> oracle_calls w + (2 * nat \<lceil>log 2 (real (length words))\<rceil> + 2)"
proof -
  have "oracle_calls (snd (index_for_best_fit configured_options h words None None None w))
      \<le> oracle_calls w + 2 * floorlog 2 (length words)"
    using calls_bound_window [of configured_options h words None None None w]
    by (simp add: default_to_def)
  moreover have "floorlog 2 (length words) \<le> nat \<lceil>log 2 (real (length words))\<rceil> + 1"
    using assms by (rule floorlog_ceiling)
  ultimately show ?thesis
    by linarith
qed

text \<open>Five words in an element that 5 code units fill.\<close>

theorem oracle_call_bound_witness:
  "1 \<le> length [js ''The'', js ''quick'', js ''brown'', js ''fox'', js ''jumps''] \<and>
   oracle_calls (snd (index_for_best_fit settings (limit_host 5)
       [js ''The'', js ''quick'', js ''brown'', js ''fox'', js ''jumps''] None None None
       (page (js ''hidden'') (js ''The quick brown fox jumps''))))
     \<le> 2 * nat \<lceil>log 2 (real (length
           [js ''The'', js ''quick'', js ''brown'', js ''fox'', js ''jumps'']))\<rceil> + 2"
  using oracle_call_bound [of "[js ''The'', js ''quick'', js ''brown'', js ''fox'', js ''jumps'']"
      settings "limit_host 5" "page (js ''hidden'') (js ''The quick brown fox jumps'')"]
  by (simp add: page_def)

subsection \<open>C9: the overflow test restores the text\<close>

text \<open>
  Claim C9: after \<open>are_words_fitting_in_element\<close> returns, the text of the element is its
  text before the call, for every state of the element and every list of words.
\<close>

theorem are_words_fitting_in_element_restores_text:
  "text_get h (elem (snd (are_words_fitting_in_element configured_options h words w)))
     = text_get h (elem w)"
  by (simp add: oracle_eq)

subsection \<open>C10: an element whose overflow is not hidden\<close>

text \<open>
  Claim C10: when the overflow of the element is not \<open>hidden\<close>, the plugin leaves the
  element as it is, its text and its data included, and calls no overflow test.
\<close>

theorem not_hidden_unchanged:
  assumes "css_overflow (elem w) \<noteq> js ''hidden''"
  shows "elem (ellipterrific_each configured_options h w) = elem w \<and>
         oracle_calls (ellipterrific_each configured_options h w) = oracle_calls w"
  using assms by (simp add: not_hidden)

text \<open>Five words in an element whose overflow is \<open>visible\<close>.\<close>

theorem not_hidden_unchanged_witness:
  "css_overflow (elem (page (js ''visible'') (js ''The quick brown fox jumps''))) = js ''visible'' \<and>
   elem (ellipterrific_each settings (limit_host 12)
       (page (js ''visible'') (js ''The quick brown fox jumps'')))
     = elem (page (js ''visible'') (js ''The quick brown fox jumps'')) \<and>
   oracle_calls (ellipterrific_each settings (limit_host 12)
       (page (js ''visible'') (js ''The quick brown fox jumps'')))
     = 0"
  using not_hidden_unchanged [of "page (js ''visible'') (js ''The quick brown fox jumps'')"
      settings "limit_host 12"]
  by (simp add: page_def js_def)

end
